theory Spec2Isabelle
  imports Main "HOL-Library.Word"
begin

unbundle bit_operations_syntax

section \<open>Collaborators of the field class\<close>

text \<open>
  \<^verbatim>\<open>FieldStringBytes.h\<close> includes \<^verbatim>\<open>Defines.h\<close>, \<^verbatim>\<open>Fields.h\<close> and \<^verbatim>\<open>Errors.h\<close>, which
  declare the result codes, the wire types, the two transport interfaces and the varint
  codec. The field class only calls them; their models below follow the specification.
\<close>

type_synonym uint8_t = "8 word"
type_synonym uint32_t = "32 word"

text \<open>Modelled from the spec: the result codes of \<^verbatim>\<open>Errors.h\<close>, as section 7 lists them.\<close>

datatype Error =
    NO_ERRORS
  | INDEX_OUT_OF_BOUND
  | ARRAY_FULL
  | BUFFER_FULL
  | END_OF_BUFFER
  | INVALID_WIRETYPE

text \<open>Modelled from the spec: the wire types section 6 names, with protobuf's codes.\<close>

datatype WireType = VARINT | FIXED64 | LENGTH_DELIMITED | FIXED32

fun wire_code :: "WireType \<Rightarrow> uint32_t" where
  "wire_code VARINT = 0"
| "wire_code FIXED64 = 1"
| "wire_code LENGTH_DELIMITED = 2"
| "wire_code FIXED32 = 5"

text \<open>
  Modelled from the spec: the output transport (\<^verbatim>\<open>WriteBufferInterface\<close>) of section 6,
  \<^verbatim>\<open>push(bytes, length) -> success/failure\<close> and \<^verbatim>\<open>get_available_size() -> remaining
  capacity\<close>. The model is a bounded byte sink: \<open>wb_max\<close> is its total capacity and
  \<open>wb_bytes\<close> what has been written so far. A push that does not fit is refused whole.
\<close>

record WriteBuffer =
  wb_max :: nat
  wb_bytes :: "uint8_t list"

definition get_available_size :: "WriteBuffer \<Rightarrow> nat" where
  "get_available_size buffer = wb_max buffer - length (wb_bytes buffer)"

definition push :: "uint8_t list \<Rightarrow> nat \<Rightarrow> WriteBuffer \<Rightarrow> bool \<times> WriteBuffer" where
  "push bytes n buffer =
     (if n \<le> get_available_size buffer
      then (True, buffer\<lparr>wb_bytes := wb_bytes buffer @ take n bytes\<rparr>)
      else (False, buffer))"

text \<open>
  Modelled from the spec: the input transport (\<^verbatim>\<open>ReadBufferInterface\<close>) of section 6,
  \<^verbatim>\<open>pop(out byte) -> success/failure\<close>, false when exhausted. The model is the list of
  bytes still to be read.
\<close>

type_synonym ReadBuffer = "uint8_t list"

fun pop :: "ReadBuffer \<Rightarrow> (uint8_t \<times> ReadBuffer) option" where
  "pop [] = None"
| "pop (byte # buffer) = Some (byte, buffer)"

text \<open>
  Modelled from the spec: \<^verbatim>\<open>WireFormatter::MakeTag\<close>, section 6:
  \<^verbatim>\<open>tag_varint = (field_number << 3) | LENGTH_DELIMITED_CODE\<close>.
\<close>

definition MakeTag :: "uint32_t \<Rightarrow> WireType \<Rightarrow> uint32_t" where
  "MakeTag field_number type = push_bit 3 field_number OR wire_code type"

text \<open>
  Modelled from the spec: protobuf's variable-length integer encoding of a 32-bit value,
  seven bits per byte, least significant group first, the top bit of a byte set when
  another byte follows.
\<close>

function varint_bytes :: "uint32_t \<Rightarrow> uint8_t list" where
  "varint_bytes v =
     (if v < 128 then [ucast v]
      else (ucast (v AND 127) OR 128) # varint_bytes (drop_bit 7 v))"
  by pat_completeness auto
termination
proof (relation "measure unat")
  show "wf (measure unat)" by simp
next
  fix v :: uint32_t
  assume "\<not> v < 128"
  then have "v \<noteq> 0" by auto
  then have "unat v \<noteq> 0" by (simp add: unat_eq_0)
  then have "unat v div 128 < unat v" by simp
  then show "(drop_bit 7 v, v) \<in> measure unat"
    by (simp add: drop_bit_eq_div unat_div)
qed

declare varint_bytes.simps [simp del]

text \<open>
  Modelled from the spec: \<^verbatim>\<open>WireFormatter::SerializeVarint(value, output_transport) ->
  Result\<close>; \<^verbatim>\<open>BUFFER_FULL\<close> when the transport cannot accept the bytes.
\<close>

definition SerializeVarint :: "uint32_t \<Rightarrow> WriteBuffer \<Rightarrow> Error \<times> WriteBuffer" where
  "SerializeVarint v buffer =
     (let bytes = varint_bytes v in
      case push bytes (length bytes) buffer of
        (True, buffer') \<Rightarrow> (NO_ERRORS, buffer')
      | (False, buffer') \<Rightarrow> (BUFFER_FULL, buffer'))"

text \<open>
  Modelled from the spec: \<^verbatim>\<open>WireFormatter::DeserializeVarint(input_transport, out value)
  -> Result\<close>. Bytes are popped until one has its top bit clear; the seven-bit groups
  are put together in a 32-bit value. \<^verbatim>\<open>END_OF_BUFFER\<close> when the transport runs out
  first. The result is the code, the value (0 when nothing was decoded, as the caller
  initialises it) and what is left of the transport. A varint longer than the 32 bits
  hold loses its upper bits.
\<close>

function DeserializeVarint :: "ReadBuffer \<Rightarrow> Error \<times> uint32_t \<times> ReadBuffer" where
  "DeserializeVarint buffer =
     (case pop buffer of
        None \<Rightarrow> (END_OF_BUFFER, 0, buffer)
      | Some (byte, buffer') \<Rightarrow>
          if byte AND 128 = 0 then (NO_ERRORS, ucast byte, buffer')
          else (case DeserializeVarint buffer' of
                  (NO_ERRORS, v, rest) \<Rightarrow> (NO_ERRORS, ucast (byte AND 127) OR push_bit 7 v, rest)
                | (e, v, rest) \<Rightarrow> (e, 0, rest)))"
  by pat_completeness auto
termination
  by (relation "measure length") (auto elim!: pop.elims)

declare DeserializeVarint.simps [simp del]

section \<open>The bounded byte field\<close>

text \<open>
  \<^verbatim>\<open>FieldStringBytes<MAX_LENGTH, DATA_TYPE>\<close>: the private members \<^verbatim>\<open>current_length_\<close>
  (a \<^verbatim>\<open>uint32_t\<close>) and \<^verbatim>\<open>data_\<close> (a \<^verbatim>\<open>std::array<DATA_TYPE, MAX_LENGTH>\<close>; the
  element type is \<^verbatim>\<open>uint8_t\<close> or \<^verbatim>\<open>char\<close>, one byte either way). The template parameter
  \<^verbatim>\<open>MAX_LENGTH\<close> is the first argument of every operation that reads it. A method
  becomes a function from the object before the call to the object after it.
\<close>

record FieldStringBytes =
  current_length :: uint32_t
  data :: "uint8_t list"

text \<open>A default-constructed object: length 0 and \<^verbatim>\<open>data_ = {{0}}\<close>.\<close>

definition FieldStringBytes_default :: "uint32_t \<Rightarrow> FieldStringBytes" where
  "FieldStringBytes_default MAX_LENGTH =
     \<lparr>current_length = 0, data = replicate (unat MAX_LENGTH) 0\<rparr>"

text \<open>What the type \<^verbatim>\<open>std::array<DATA_TYPE, MAX_LENGTH>\<close> says of the storage.\<close>

definition array_of :: "uint32_t \<Rightarrow> FieldStringBytes \<Rightarrow> bool" where
  "array_of MAX_LENGTH f = (length (data f) = unat MAX_LENGTH)"

definition get_length :: "FieldStringBytes \<Rightarrow> uint32_t" where
  "get_length f = current_length f"

definition get_max_length :: "uint32_t \<Rightarrow> uint32_t" where
  "get_max_length MAX_LENGTH = MAX_LENGTH"

text \<open>
  \<^verbatim>\<open>DATA_TYPE& get(uint32_t index)\<close>, lines 81 to 89. The reference it returns is the
  position \<open>limited_index\<close> of the storage; \<open>assign\<close> is a store through it.
\<close>

definition get :: "uint32_t \<Rightarrow> uint32_t \<Rightarrow> FieldStringBytes \<Rightarrow> uint32_t \<times> FieldStringBytes" where
  "get MAX_LENGTH index f =
     (let limited_index = min index (MAX_LENGTH - 1) in
      (limited_index,
       if limited_index \<ge> current_length f
       then f\<lparr>current_length := limited_index + 1\<rparr>
       else f))"

definition assign :: "uint32_t \<Rightarrow> uint8_t \<Rightarrow> FieldStringBytes \<Rightarrow> FieldStringBytes" where
  "assign ref v f = f\<lparr>data := (data f)[unat ref := v]\<rparr>"

text \<open>\<^verbatim>\<open>const DATA_TYPE& get_const(uint32_t index) const\<close>, lines 97 to 101.\<close>

definition get_const :: "uint32_t \<Rightarrow> uint32_t \<Rightarrow> FieldStringBytes \<Rightarrow> uint8_t" where
  "get_const MAX_LENGTH index f =
     (let limited_index = min index (MAX_LENGTH - 1) in data f ! unat limited_index)"

text \<open>
  \<^verbatim>\<open>Error get_const(const uint32_t index, DATA_TYPE& value) const\<close>, lines 109 to 121:
  the out parameter is written only on success.
\<close>

definition get_const_checked :: "uint32_t \<Rightarrow> FieldStringBytes \<Rightarrow> Error \<times> uint8_t option" where
  "get_const_checked index f =
     (if index < current_length f then (NO_ERRORS, Some (data f ! unat index))
      else (INDEX_OUT_OF_BOUND, None))"

text \<open>
  \<^verbatim>\<open>memcpy(dest, src, n)\<close> into the storage: the first \<open>n\<close> bytes come from \<open>src\<close>, the
  rest stays. C++ leaves a copy that reads past the end of \<open>src\<close> undefined; every
  statement below about a copy says that \<open>src\<close> holds \<open>n\<close> bytes.
\<close>

definition memcpy :: "uint8_t list \<Rightarrow> uint8_t list \<Rightarrow> nat \<Rightarrow> uint8_t list" where
  "memcpy dest src n = take n src @ drop n dest"

text \<open>\<^verbatim>\<open>Error set(const DATA_TYPE* data, const uint32_t length)\<close>, lines 159 to 172.\<close>

definition set_data ::
  "uint32_t \<Rightarrow> uint8_t list \<Rightarrow> uint32_t \<Rightarrow> FieldStringBytes \<Rightarrow> Error \<times> FieldStringBytes" where
  "set_data MAX_LENGTH src len f =
     (if MAX_LENGTH \<ge> len
      then (NO_ERRORS, f\<lparr>current_length := len, data := memcpy (data f) src (unat len)\<rparr>)
      else (ARRAY_FULL, f))"

text \<open>
  \<^verbatim>\<open>Error set(const FieldStringBytes<RHS_LENGTH, DATA_TYPE>& rhs)\<close>, lines 147 to 151:
  \<^verbatim>\<open>rhs.get_const()\<close> points at the whole storage of \<open>rhs\<close>.
\<close>

definition set_field ::
  "uint32_t \<Rightarrow> FieldStringBytes \<Rightarrow> FieldStringBytes \<Rightarrow> Error \<times> FieldStringBytes" where
  "set_field MAX_LENGTH rhs f = set_data MAX_LENGTH (data rhs) (get_length rhs) f"

text \<open>\<^verbatim>\<open>void clear()\<close>, lines 263 to 267: \<^verbatim>\<open>data_.fill(0)\<close> keeps the array's size.\<close>

definition clear :: "FieldStringBytes \<Rightarrow> FieldStringBytes" where
  "clear f = \<lparr>current_length = 0, data = replicate (length (data f)) 0\<rparr>"

text \<open>\<^verbatim>\<open>void set_length(uint32_t length)\<close>, line 275 (protected).\<close>

definition set_length :: "uint32_t \<Rightarrow> uint32_t \<Rightarrow> FieldStringBytes \<Rightarrow> FieldStringBytes" where
  "set_length MAX_LENGTH len f = f\<lparr>current_length := min len MAX_LENGTH\<rparr>"

text \<open>
  \<^verbatim>\<open>Error serialize(WriteBufferInterface& buffer) const\<close>, lines 206 to 216. The method
  is \<^verbatim>\<open>const\<close>; the result carries the object all the same, so that what a call leaves
  of it can be stated.
\<close>

definition serialize ::
  "WriteBuffer \<Rightarrow> FieldStringBytes \<Rightarrow> Error \<times> WriteBuffer \<times> FieldStringBytes" where
  "serialize buffer f =
     (case push (data f) (unat (current_length f)) buffer of
        (True, buffer') \<Rightarrow> (NO_ERRORS, buffer', f)
      | (False, buffer') \<Rightarrow> (BUFFER_FULL, buffer', f))"

text \<open>
  \<^verbatim>\<open>Error serialize_with_id(uint32_t field_number, WriteBufferInterface& buffer, const
  bool optional) const\<close>, lines 175 to 204.
\<close>

definition serialize_with_id ::
  "uint32_t \<Rightarrow> WriteBuffer \<Rightarrow> bool \<Rightarrow> FieldStringBytes
     \<Rightarrow> Error \<times> WriteBuffer \<times> FieldStringBytes" where
  "serialize_with_id field_number buffer optional f =
     (if 0 < current_length f \<or> optional then
        (let n_bytes_available = get_available_size buffer in
         if unat (current_length f) \<le> n_bytes_available then
           (let tag = MakeTag field_number LENGTH_DELIMITED;
                (return_value, buffer1) = SerializeVarint tag buffer;
                (return_value, buffer2) =
                   (if NO_ERRORS = return_value then SerializeVarint (current_length f) buffer1
                    else (return_value, buffer1))
            in if NO_ERRORS = return_value \<and> 0 < current_length f
               then serialize buffer2 f
               else (return_value, buffer2, f))
         else (BUFFER_FULL, buffer, f))
      else (NO_ERRORS, buffer, f))"

text \<open>
  The loop of \<^verbatim>\<open>deserialize\<close>, lines 229 to 233:
  \<^verbatim>\<open>while((current_length_ < availiable) && buffer.pop(byte))\<close>. The length is tested
  first, so nothing is popped once \<open>availiable\<close> bytes are stored.
\<close>

function read_loop ::
  "uint32_t \<Rightarrow> ReadBuffer \<Rightarrow> FieldStringBytes \<Rightarrow> FieldStringBytes \<times> ReadBuffer" where
  "read_loop availiable buffer f =
     (if current_length f < availiable then
        (case pop buffer of
           Some (byte, buffer') \<Rightarrow>
             read_loop availiable buffer'
               (f\<lparr>data := (data f)[unat (current_length f) := byte],
                  current_length := current_length f + 1\<rparr>)
         | None \<Rightarrow> (f, buffer))
      else (f, buffer))"
  by pat_completeness auto
termination
  by (relation "measure (\<lambda>(availiable, buffer, f). length buffer)") (auto elim!: pop.elims)

declare read_loop.simps [simp del]

text \<open>\<^verbatim>\<open>Error deserialize(ReadBufferInterface& buffer)\<close>, lines 218 to 248.\<close>

definition deserialize ::
  "uint32_t \<Rightarrow> ReadBuffer \<Rightarrow> FieldStringBytes \<Rightarrow> Error \<times> FieldStringBytes \<times> ReadBuffer" where
  "deserialize MAX_LENGTH buffer f =
     (case DeserializeVarint buffer of (return_value, availiable, buffer1) \<Rightarrow>
        if NO_ERRORS = return_value then
          (if MAX_LENGTH \<ge> availiable then
             (case read_loop availiable buffer1 (clear f) of (f', buffer2) \<Rightarrow>
                if current_length f' \<noteq> availiable then (END_OF_BUFFER, f', buffer2)
                else (return_value, f', buffer2))
           else (ARRAY_FULL, f, buffer1))
        else (return_value, f, buffer1))"

text \<open>\<^verbatim>\<open>Error deserialize_check_type(buffer, wire_type)\<close>, lines 250 to 260.\<close>

definition deserialize_check_type ::
  "uint32_t \<Rightarrow> ReadBuffer \<Rightarrow> WireType \<Rightarrow> FieldStringBytes
     \<Rightarrow> Error \<times> FieldStringBytes \<times> ReadBuffer" where
  "deserialize_check_type MAX_LENGTH buffer wire_type f =
     (let return_value = (if LENGTH_DELIMITED = wire_type then NO_ERRORS else INVALID_WIRETYPE)
      in if NO_ERRORS = return_value then deserialize MAX_LENGTH buffer f
         else (return_value, f, buffer))"

section \<open>The text field\<close>

text \<open>
  A C string is the list of the bytes at the pointer, a terminator following them, so
  \<^verbatim>\<open>strlen\<close> counts up to the first zero byte or the end of the list. \<^verbatim>\<open>strncpy(dest,
  src, n)\<close> copies the characters of \<open>src\<close>, at most \<open>n\<close>, and fills up to \<open>n\<close> with zero
  bytes when \<open>src\<close> is shorter.
\<close>

definition strlen :: "uint8_t list \<Rightarrow> nat" where
  "strlen str = length (takeWhile (\<lambda>c. c \<noteq> 0) str)"

definition strncpy :: "uint8_t list \<Rightarrow> uint8_t list \<Rightarrow> nat \<Rightarrow> uint8_t list" where
  "strncpy dest str n =
     (let k = min n (strlen str) in take k str @ replicate (n - k) 0 @ drop n dest)"

text \<open>
  \<^verbatim>\<open>void FieldString::set(const char* const str)\<close>, lines 335 to 350; \<open>None\<close> is the
  null pointer. \<^verbatim>\<open>strlen\<close> returns a \<^verbatim>\<open>size_t\<close>, which the code stores in a
  \<^verbatim>\<open>uint32_t\<close>.
\<close>

definition set_str :: "uint32_t \<Rightarrow> uint8_t list option \<Rightarrow> FieldStringBytes \<Rightarrow> FieldStringBytes" where
  "set_str MAX_LENGTH str_ptr f =
     (case str_ptr of
        Some str \<Rightarrow>
          (let str_MAX_LENGTH = (of_nat (strlen str) :: uint32_t);
               f1 = set_length MAX_LENGTH str_MAX_LENGTH f;
               this_length = get_length f1;
               this_length = (if MAX_LENGTH > this_length then this_length + 1 else this_length)
           in f1\<lparr>data := strncpy (data f1) str (unat this_length)\<rparr>)
      | None \<Rightarrow> clear f)"

section \<open>Sequences of calls\<close>

text \<open>
  The growth test of the specification: \<^verbatim>\<open>get(0)\<close>, \<^verbatim>\<open>get(1)\<close>, ..., \<^verbatim>\<open>get(n - 1)\<close> in this
  order.
\<close>

fun get_upto :: "uint32_t \<Rightarrow> nat \<Rightarrow> FieldStringBytes \<Rightarrow> FieldStringBytes" where
  "get_upto MAX_LENGTH 0 f = f"
| "get_upto MAX_LENGTH (Suc n) f = snd (get MAX_LENGTH (of_nat n) (get_upto MAX_LENGTH n f))"

text \<open>
  The public operations of a field, with their arguments. \<open>Get index (Some v)\<close> is
  \<^verbatim>\<open>field.get(index) = v\<close>, a store through the reference returned.
\<close>

datatype op =
    Get uint32_t "uint8_t option"
  | GetConst uint32_t
  | GetConstChecked uint32_t
  | SetData "uint8_t list" uint32_t
  | SetField FieldStringBytes
  | Serialize WriteBuffer
  | SerializeWithId uint32_t WriteBuffer bool
  | Deserialize ReadBuffer
  | DeserializeCheckType ReadBuffer WireType
  | Clear
  | SetStr "uint8_t list option"

text \<open>The object after one call; the \<^verbatim>\<open>const\<close> accessors leave it as it is.\<close>

fun call :: "uint32_t \<Rightarrow> op \<Rightarrow> FieldStringBytes \<Rightarrow> FieldStringBytes" where
  "call MAX_LENGTH (Get index None) f = snd (get MAX_LENGTH index f)"
| "call MAX_LENGTH (Get index (Some v)) f =
     (case get MAX_LENGTH index f of (ref, f') \<Rightarrow> assign ref v f')"
| "call MAX_LENGTH (GetConst index) f = f"
| "call MAX_LENGTH (GetConstChecked index) f = f"
| "call MAX_LENGTH (SetData src len) f = snd (set_data MAX_LENGTH src len f)"
| "call MAX_LENGTH (SetField rhs) f = snd (set_field MAX_LENGTH rhs f)"
| "call MAX_LENGTH (Serialize buffer) f = snd (snd (serialize buffer f))"
| "call MAX_LENGTH (SerializeWithId field_number buffer optional) f =
     snd (snd (serialize_with_id field_number buffer optional f))"
| "call MAX_LENGTH (Deserialize buffer) f = fst (snd (deserialize MAX_LENGTH buffer f))"
| "call MAX_LENGTH (DeserializeCheckType buffer wire_type) f =
     fst (snd (deserialize_check_type MAX_LENGTH buffer wire_type f))"
| "call MAX_LENGTH Clear f = clear f"
| "call MAX_LENGTH (SetStr str_ptr) f = set_str MAX_LENGTH str_ptr f"

fun run :: "uint32_t \<Rightarrow> op list \<Rightarrow> FieldStringBytes \<Rightarrow> FieldStringBytes" where
  "run MAX_LENGTH [] f = f"
| "run MAX_LENGTH (c # cs) f = run MAX_LENGTH cs (call MAX_LENGTH c f)"

text \<open>
  The calls C++ defines: \<^verbatim>\<open>data_[limited_index]\<close> needs an array with an element, and
  \<^verbatim>\<open>memcpy\<close> needs \<open>length\<close> readable bytes at the source pointer.
\<close>

fun defined_call :: "uint32_t \<Rightarrow> op \<Rightarrow> bool" where
  "defined_call MAX_LENGTH (Get index v) = (MAX_LENGTH \<noteq> 0)"
| "defined_call MAX_LENGTH (GetConst index) = (MAX_LENGTH \<noteq> 0)"
| "defined_call MAX_LENGTH (SetData src len) = (unat len \<le> length src)"
| "defined_call MAX_LENGTH (SetField rhs) = (unat (get_length rhs) \<le> length (data rhs))"
| "defined_call MAX_LENGTH c = True"

text \<open>The invariant of the data model: the storage has its size, the length is within it.\<close>

definition invariant :: "uint32_t \<Rightarrow> FieldStringBytes \<Rightarrow> bool" where
  "invariant MAX_LENGTH f = (array_of MAX_LENGTH f \<and> current_length f \<le> MAX_LENGTH)"

section \<open>The varint codec\<close>

text \<open>The decoder on an exhausted transport and on one that holds a byte.\<close>

lemma DeserializeVarint_Nil [simp]: "DeserializeVarint [] = (END_OF_BUFFER, 0, [])"
  by (simp add: DeserializeVarint.simps)

lemma DeserializeVarint_Cons [simp]:
  "DeserializeVarint (byte # buffer) =
     (if byte AND 128 = 0 then (NO_ERRORS, ucast byte, buffer)
      else (case DeserializeVarint buffer of
              (NO_ERRORS, v, rest) \<Rightarrow> (NO_ERRORS, ucast (byte AND 127) OR push_bit 7 v, rest)
            | (e, v, rest) \<Rightarrow> (e, 0, rest)))"
  by (subst DeserializeVarint.simps) simp

text \<open>Bits of the two constants of the encoding, the continuation bit and the payload mask.\<close>

lemma bit_128_int: "bit (128 :: int) n \<longleftrightarrow> n = 7"
proof -
  have "(128 :: int) = 2 ^ 7" by simp
  then have "bit (128 :: int) n \<longleftrightarrow> bit (2 ^ 7 :: int) n" by (simp only:)
  also have "\<dots> \<longleftrightarrow> n = 7" by (simp only: bit_exp_iff) auto
  finally show ?thesis .
qed

lemma bit_127_int: "bit (127 :: int) n \<longleftrightarrow> n < 7"
proof -
  have "(127 :: int) = mask 7" by (simp add: mask_eq_exp_minus_1)
  then have "bit (127 :: int) n \<longleftrightarrow> bit (mask 7 :: int) n" by (simp only:)
  also have "\<dots> \<longleftrightarrow> n < 7" by (simp only: bit_mask_iff) auto
  finally show ?thesis .
qed

lemma bit_lt_128:
  fixes v :: uint32_t
  assumes "v < 128" "bit v n"
  shows "n < 7"
proof -
  have "v AND mask 7 = v" using less_mask_eq [of v 7] assms(1) by simp
  then have "bit (v AND mask 7) n" using assms(2) by simp
  then show ?thesis by (simp add: bit_simps)
qed

lemma ucast_small:
  fixes v :: uint32_t
  assumes "v < 128"
  shows "(ucast (ucast v :: uint8_t) :: uint32_t) = v" and "(ucast v :: uint8_t) AND 128 = 0"
proof -
  have b: "bit v n \<Longrightarrow> n < 7" for n using bit_lt_128 [OF assms] .
  show "(ucast (ucast v :: uint8_t) :: uint32_t) = v"
  proof (rule bit_eqI)
    fix n
    show "bit (ucast (ucast v :: uint8_t) :: uint32_t) n = bit v n"
      using b [of n] by (auto simp add: bit_simps)
  qed
  show "(ucast v :: uint8_t) AND 128 = 0"
  proof (rule bit_eqI)
    fix n
    show "bit ((ucast v :: uint8_t) AND 128) n = bit (0 :: uint8_t) n"
      using b [of 7] by (auto simp add: bit_simps bit_128_int)
  qed
qed

lemma cont_byte:
  fixes v :: uint32_t
  shows "((ucast (v AND 127) :: uint8_t) OR 128) AND 128 \<noteq> 0"
    and "(ucast (((ucast (v AND 127) :: uint8_t) OR 128) AND 127) :: uint32_t) OR push_bit 7 (drop_bit 7 v) = v"
proof -
  have "bit (((ucast (v AND 127) :: uint8_t) OR 128) AND 128) 7"
    by (simp add: bit_simps bit_128_int)
  then show "((ucast (v AND 127) :: uint8_t) OR 128) AND 128 \<noteq> 0"
    by auto
  show "(ucast (((ucast (v AND 127) :: uint8_t) OR 128) AND 127) :: uint32_t) OR push_bit 7 (drop_bit 7 v) = v"
  proof (rule bit_eqI)
    fix n
    assume "possible_bit TYPE(uint32_t) n"
    then have n: "n < 32" by simp
    show "bit ((ucast (((ucast (v AND 127) :: uint8_t) OR 128) AND 127) :: uint32_t) OR push_bit 7 (drop_bit 7 v)) n = bit v n"
    proof (cases "n < 7")
      case True
      then show ?thesis
        by (simp add: bit_simps bit_128_int bit_127_int)
    next
      case False
      with n show ?thesis
        by (simp add: bit_simps bit_128_int bit_127_int)
    qed
  qed
qed

lemma DeserializeVarint_varint_bytes:
  "DeserializeVarint (varint_bytes v @ rest) = (NO_ERRORS, v, rest)"
proof (induction v rule: varint_bytes.induct)
  case (1 v)
  show ?case
  proof (cases "v < 128")
    case True
    then show ?thesis
      by (subst varint_bytes.simps) (simp add: ucast_small)
  next
    case False
    with 1 have "DeserializeVarint (varint_bytes (drop_bit 7 v) @ rest) = (NO_ERRORS, drop_bit 7 v, rest)"
      by simp
    with False show ?thesis
      by (subst varint_bytes.simps) (simp add: cont_byte)
  qed
qed

section \<open>The read loop\<close>

text \<open>The loop on an exhausted transport and on one that holds a byte.\<close>

lemma read_loop_Nil [simp]: "read_loop availiable [] f = (f, [])"
  by (simp add: read_loop.simps)

lemma read_loop_Cons [simp]:
  "read_loop availiable (byte # buffer) f =
     (if current_length f < availiable
      then read_loop availiable buffer
             (f\<lparr>data := (data f)[unat (current_length f) := byte],
                current_length := current_length f + 1\<rparr>)
      else (f, byte # buffer))"
  by (subst read_loop.simps) simp

lemma unat_inc:
  fixes c av :: uint32_t
  assumes "c < av"
  shows "unat (c + 1) = Suc (unat c)"
proof -
  have "unat c < unat av" using assms by (simp add: word_less_nat_alt)
  moreover have "unat av < 2 ^ 32" using unsigned_less [of av] by simp
  ultimately show ?thesis by (simp add: unat_word_ariths)
qed

text \<open>
  Started with \<open>k\<close> bytes stored, the loop appends \<open>m\<close> bytes of the transport, where
  \<open>m\<close> is what is missing to \<open>availiable\<close> or what the transport holds, whichever is
  less.
\<close>

lemma read_loop_spec:
  assumes "unat (current_length f) \<le> unat av" "unat av \<le> length (data f)"
  shows "read_loop av bs f =
     (let k = unat (current_length f); m = min (unat av - k) (length bs) in
      (\<lparr>current_length = current_length f + of_nat m,
        data = take k (data f) @ take m bs @ drop (k + m) (data f)\<rparr>, drop m bs))"
  using assms
proof (induction bs arbitrary: f)
  case Nil
  then show ?case by simp
next
  case (Cons b bs)
  let ?k = "unat (current_length f)"
  show ?case
  proof (cases "current_length f < av")
    case False
    then have "unat av - ?k = 0" by (simp add: word_less_nat_alt)
    with False show ?thesis by simp
  next
    case True
    let ?f = "f\<lparr>data := (data f)[?k := b], current_length := current_length f + 1\<rparr>"
    have k: "?k < unat av" using True by (simp add: word_less_nat_alt)
    have u: "unat (current_length ?f) = Suc ?k" using unat_inc [OF True] by simp
    have "read_loop av bs ?f =
       (let k = unat (current_length ?f); m = min (unat av - k) (length bs) in
        (\<lparr>current_length = current_length ?f + of_nat m,
          data = take k (data ?f) @ take m bs @ drop (k + m) (data ?f)\<rparr>, drop m bs))"
      using Cons.prems k u by (intro Cons.IH) simp_all
    moreover have "min (unat av - ?k) (length (b # bs)) = Suc (min (unat av - Suc ?k) (length bs))"
      using k by auto
    moreover have "take (Suc ?k) ((data f)[?k := b]) = take ?k (data f) @ [b]"
      using k Cons.prems by (simp add: take_Suc_conv_app_nth)
    ultimately show ?thesis
      using True u by (simp add: Let_def)
  qed
qed

lemma unat_of_nat_u32: "n < 2 ^ 32 \<Longrightarrow> unat (of_nat n :: uint32_t) = n"
  by (simp add: unat_of_nat)

lemma read_loop_clear:
  assumes "array_of MAX_LENGTH f" "availiable \<le> MAX_LENGTH"
  shows "read_loop availiable buffer (clear f) =
     (let m = min (unat availiable) (length buffer) in
      (\<lparr>current_length = of_nat m,
        data = take m buffer @ replicate (unat MAX_LENGTH - m) 0\<rparr>, drop m buffer))"
proof -
  have "unat availiable \<le> length (data (clear f))"
    using assms by (simp add: clear_def array_of_def word_le_nat_alt)
  then show ?thesis
    using assms(1) read_loop_spec [of "clear f" availiable buffer]
    by (simp add: clear_def array_of_def Let_def)
qed

section \<open>Deserialize\<close>

text \<open>
  Claim C5. Whatever the field holds, when the length varint read from the input stream
  is larger than the capacity, \<open>deserialize\<close> returns \<open>ARRAY_FULL\<close> and the field, its
  length and its storage, is what it was before the call. The stream has lost the
  varint and nothing else.
\<close>

theorem deserialize_array_full:
  assumes "DeserializeVarint buffer = (NO_ERRORS, availiable, rest)"
    and "MAX_LENGTH < availiable"
  shows "deserialize MAX_LENGTH buffer f = (ARRAY_FULL, f, rest)"
proof -
  have "\<not> availiable \<le> MAX_LENGTH" using assms(2) by simp
  then show ?thesis using assms(1) by (simp add: deserialize_def)
qed

theorem deserialize_array_full_witness:
  "DeserializeVarint [5, 1, 2, 3, 4, 5] = (NO_ERRORS, 5, [1, 2, 3, 4, 5])
   \<and> (2 :: uint32_t) < 5
   \<and> deserialize 2 [5, 1, 2, 3, 4, 5] \<lparr>current_length = 1, data = [7, 0]\<rparr>
       = (ARRAY_FULL, \<lparr>current_length = 1, data = [7, 0]\<rparr>, [1, 2, 3, 4, 5])"
  using deserialize_array_full [of "[5, 1, 2, 3, 4, 5]" 5 "[1, 2, 3, 4, 5]" 2 "\<lparr>current_length = 1, data = [7, 0]\<rparr>"]
  by simp

text \<open>
  Claim C6. The stream declares \<open>N\<close> bytes, \<open>N\<close> within the capacity, and ends after
  \<open>K < N\<close> of them (\<open>payload\<close>, of length \<open>K\<close>). Then \<open>deserialize\<close> returns
  \<open>END_OF_BUFFER\<close>, the stream is exhausted, and the field holds the \<open>K\<close> bytes read
  followed by the zeros of \<open>clear\<close>, with length \<open>K\<close>: nothing of the content before the
  call is left.
\<close>

theorem deserialize_truncated:
  assumes "array_of MAX_LENGTH f"
    and "DeserializeVarint buffer = (NO_ERRORS, N, payload)"
    and "N \<le> MAX_LENGTH"
    and "length payload < unat N"
  shows "deserialize MAX_LENGTH buffer f =
           (END_OF_BUFFER,
            \<lparr>current_length = of_nat (length payload),
              data = payload @ replicate (unat MAX_LENGTH - length payload) 0\<rparr>,
            [])
         \<and> unat (of_nat (length payload) :: uint32_t) = length payload"
proof -
  have "unat N < 2 ^ 32" using unsigned_less [of N] by simp
  then have lt: "length payload < 2 ^ 32" using assms(4) by simp
  then have u: "unat (of_nat (length payload) :: uint32_t) = length payload"
    by (rule unat_of_nat_u32)
  then have "(of_nat (length payload) :: uint32_t) \<noteq> N"
    using assms(4) by auto
  moreover have "min (unat N) (length payload) = length payload"
    using assms(4) by simp
  ultimately show ?thesis
    using assms(2,3) u read_loop_clear [OF assms(1,3), of payload]
    by (simp add: deserialize_def Let_def)
qed

theorem deserialize_truncated_witness:
  "array_of 4 \<lparr>current_length = 2, data = [7, 7, 7, 7]\<rparr>
   \<and> DeserializeVarint [3, 65, 66] = (NO_ERRORS, 3, [65, 66])
   \<and> (3 :: uint32_t) \<le> 4
   \<and> length [65, 66 :: uint8_t] < unat (3 :: uint32_t)
   \<and> deserialize 4 [3, 65, 66] \<lparr>current_length = 2, data = [7, 7, 7, 7]\<rparr>
       = (END_OF_BUFFER, \<lparr>current_length = 2, data = [65, 66, 0, 0]\<rparr>, [])"
proof -
  have "replicate 2 (0 :: uint8_t) = [0, 0]" by (simp add: numeral_2_eq_2)
  with deserialize_truncated
         [of 4 "\<lparr>current_length = 2, data = [7, 7, 7, 7]\<rparr>" "[3, 65, 66]" 3 "[65, 66]"]
  show ?thesis by (simp add: array_of_def)
qed

section \<open>Serialize\<close>

text \<open>What the output transport and the varint writer do when the bytes fit and when not.\<close>

lemma push_fits:
  "n \<le> get_available_size buffer \<Longrightarrow>
   push bytes n buffer = (True, buffer\<lparr>wb_bytes := wb_bytes buffer @ take n bytes\<rparr>)"
  by (simp add: push_def)

lemma push_full:
  "get_available_size buffer < n \<Longrightarrow> push bytes n buffer = (False, buffer)"
  by (simp add: push_def)

lemma SerializeVarint_fits:
  "length (varint_bytes v) \<le> get_available_size buffer \<Longrightarrow>
   SerializeVarint v buffer = (NO_ERRORS, buffer\<lparr>wb_bytes := wb_bytes buffer @ varint_bytes v\<rparr>)"
  by (simp add: SerializeVarint_def push_fits)

lemma SerializeVarint_full:
  "get_available_size buffer < length (varint_bytes v) \<Longrightarrow>
   SerializeVarint v buffer = (BUFFER_FULL, buffer)"
  by (simp add: SerializeVarint_def push_full)

lemma get_available_size_append:
  "get_available_size (buffer\<lparr>wb_bytes := wb_bytes buffer @ bytes\<rparr>)
     = get_available_size buffer - length bytes"
  by (simp add: get_available_size_def)

lemma varint_bytes_0: "varint_bytes 0 = [0]"
  by (simp add: varint_bytes.simps)

lemma serialize_fits:
  "unat (current_length f) \<le> get_available_size buffer \<Longrightarrow>
   serialize buffer f =
     (NO_ERRORS, buffer\<lparr>wb_bytes := wb_bytes buffer @ take (unat (current_length f)) (data f)\<rparr>, f)"
  by (simp add: serialize_def push_fits)

lemma serialize_full:
  "get_available_size buffer < unat (current_length f) \<Longrightarrow>
   serialize buffer f = (BUFFER_FULL, buffer, f)"
  by (simp add: serialize_def push_full)

text \<open>
  With room for all three parts, \<open>serialize_with_id\<close> writes the tag varint, the length
  varint and the first \<open>current_length\<close> bytes of the storage.
\<close>

lemma serialize_with_id_fits:
  assumes "0 < current_length f \<or> optional"
    and "length (varint_bytes (MakeTag field_number LENGTH_DELIMITED))
           + length (varint_bytes (current_length f))
           + unat (current_length f) \<le> get_available_size buffer"
  shows "serialize_with_id field_number buffer optional f =
     (NO_ERRORS,
      buffer\<lparr>wb_bytes := wb_bytes buffer
                 @ varint_bytes (MakeTag field_number LENGTH_DELIMITED)
                 @ varint_bytes (current_length f)
                 @ take (unat (current_length f)) (data f)\<rparr>,
      f)"
proof (cases "0 < current_length f")
  case True
  with assms(2) show ?thesis
    by (simp add: serialize_with_id_def SerializeVarint_fits serialize_fits
                  get_available_size_append)
next
  case False
  then have z: "current_length f = 0" by (simp add: word_gt_0)
  with assms show ?thesis
    by (simp add: serialize_with_id_def SerializeVarint_fits get_available_size_append)
qed

text \<open>
  Claim C10. Neither \<open>serialize\<close> nor \<open>serialize_with_id\<close> changes the field: whatever
  the transport, the field number and the flag, and whatever the call returns, the
  object after the call is the object before it, length and storage.
\<close>

theorem serialize_leaves_field:
  "snd (snd (serialize buffer f)) = f
   \<and> snd (snd (serialize_with_id field_number buffer optional f)) = f"
  by (simp add: serialize_def serialize_with_id_def Let_def split: prod.splits bool.splits)

section \<open>Set\<close>

text \<open>
  Claim C7. With \<open>length > MAX_LENGTH\<close>, \<open>set(data, length)\<close> returns \<open>ARRAY_FULL\<close> and
  the field is unchanged, whatever the field, the pointer and the length. With
  \<open>length \<le> MAX_LENGTH\<close>, on a field whose storage is the array of \<open>MAX_LENGTH\<close>
  elements and with \<open>data\<close> pointing at \<open>length\<close> readable bytes or more, it returns
  \<open>NO_ERRORS\<close>, the length of the field is \<open>length\<close>, its first \<open>length\<close> bytes are
  those of \<open>data\<close>, and the storage from index \<open>length\<close> on is what it was: nothing is
  padded, and the array keeps its size.
\<close>

theorem set_data_spec:
  "(MAX_LENGTH < len \<longrightarrow> set_data MAX_LENGTH src len f = (ARRAY_FULL, f))
 \<and> (len \<le> MAX_LENGTH \<and> array_of MAX_LENGTH f \<and> unat len \<le> length src \<longrightarrow>
      fst (set_data MAX_LENGTH src len f) = NO_ERRORS
    \<and> get_length (snd (set_data MAX_LENGTH src len f)) = len
    \<and> take (unat len) (data (snd (set_data MAX_LENGTH src len f))) = take (unat len) src
    \<and> drop (unat len) (data (snd (set_data MAX_LENGTH src len f))) = drop (unat len) (data f)
    \<and> array_of MAX_LENGTH (snd (set_data MAX_LENGTH src len f)))"
proof (intro conjI impI)
  assume "MAX_LENGTH < len"
  then have "\<not> len \<le> MAX_LENGTH" by simp
  then show "set_data MAX_LENGTH src len f = (ARRAY_FULL, f)"
    by (simp add: set_data_def)
next
  assume a: "len \<le> MAX_LENGTH \<and> array_of MAX_LENGTH f \<and> unat len \<le> length src"
  then have "unat len \<le> length (data f)"
    by (simp add: array_of_def word_le_nat_alt)
  with a show "fst (set_data MAX_LENGTH src len f) = NO_ERRORS"
    and "get_length (snd (set_data MAX_LENGTH src len f)) = len"
    and "take (unat len) (data (snd (set_data MAX_LENGTH src len f))) = take (unat len) src"
    and "drop (unat len) (data (snd (set_data MAX_LENGTH src len f))) = drop (unat len) (data f)"
    and "array_of MAX_LENGTH (snd (set_data MAX_LENGTH src len f))"
    by (simp_all add: set_data_def get_length_def memcpy_def array_of_def)
qed

theorem set_data_spec_witness:
  "array_of 4 \<lparr>current_length = 4, data = [1, 2, 3, 4]\<rparr>
   \<and> unat (2 :: uint32_t) \<le> length [9, 8 :: uint8_t]
   \<and> set_data 4 [9, 8] 2 \<lparr>current_length = 4, data = [1, 2, 3, 4]\<rparr>
       = (NO_ERRORS, \<lparr>current_length = 2, data = [9, 8, 3, 4]\<rparr>)
   \<and> unat (5 :: uint32_t) \<le> length [9, 8, 7, 6, 5 :: uint8_t]
   \<and> set_data 4 [9, 8, 7, 6, 5] 5 \<lparr>current_length = 4, data = [1, 2, 3, 4]\<rparr>
       = (ARRAY_FULL, \<lparr>current_length = 4, data = [1, 2, 3, 4]\<rparr>)"
  using set_data_spec [of 4 2 "[9, 8]" "\<lparr>current_length = 4, data = [1, 2, 3, 4]\<rparr>"]
        set_data_spec [of 4 5 "[9, 8, 7, 6, 5]" "\<lparr>current_length = 4, data = [1, 2, 3, 4]\<rparr>"]
  by (simp add: array_of_def set_data_def memcpy_def)

section \<open>Serialize with id\<close>

text \<open>The three ways \<open>serialize_with_id\<close> fails after its first check has passed.\<close>

lemma serialize_with_id_no_tag:
  assumes "0 < current_length f \<or> optional"
    and "unat (current_length f) \<le> get_available_size buffer"
    and "get_available_size buffer < length (varint_bytes (MakeTag field_number LENGTH_DELIMITED))"
  shows "serialize_with_id field_number buffer optional f = (BUFFER_FULL, buffer, f)"
  using assms
  by (simp add: serialize_with_id_def SerializeVarint_full)

lemma serialize_with_id_tag_only:
  assumes "0 < current_length f \<or> optional"
    and "unat (current_length f) \<le> get_available_size buffer"
    and "length (varint_bytes (MakeTag field_number LENGTH_DELIMITED)) \<le> get_available_size buffer"
    and "get_available_size buffer
           < length (varint_bytes (MakeTag field_number LENGTH_DELIMITED))
             + length (varint_bytes (current_length f))"
  shows "serialize_with_id field_number buffer optional f =
     (BUFFER_FULL,
      buffer\<lparr>wb_bytes := wb_bytes buffer @ varint_bytes (MakeTag field_number LENGTH_DELIMITED)\<rparr>,
      f)"
  using assms
  by (simp add: serialize_with_id_def SerializeVarint_fits SerializeVarint_full
                get_available_size_append)

lemma serialize_with_id_no_payload:
  assumes "0 < current_length f"
    and "unat (current_length f) \<le> get_available_size buffer"
    and "length (varint_bytes (MakeTag field_number LENGTH_DELIMITED))
           + length (varint_bytes (current_length f)) \<le> get_available_size buffer"
    and "get_available_size buffer
           < length (varint_bytes (MakeTag field_number LENGTH_DELIMITED))
             + length (varint_bytes (current_length f)) + unat (current_length f)"
  shows "serialize_with_id field_number buffer optional f =
     (BUFFER_FULL,
      buffer\<lparr>wb_bytes := wb_bytes buffer @ varint_bytes (MakeTag field_number LENGTH_DELIMITED)
                 @ varint_bytes (current_length f)\<rparr>,
      f)"
  using assms
  by (simp add: serialize_with_id_def SerializeVarint_fits serialize_full
                get_available_size_append)

text \<open>
  Claim C4. When \<open>serialize_with_id\<close> emits (the length is positive or the field is
  optional), the room the transport reports is compared with \<open>current_length\<close> alone.
  With less room than \<open>current_length\<close> the call returns \<open>BUFFER_FULL\<close> and the
  transport is what it was. The two varints are not part of the comparison: with room
  for \<open>current_length\<close> bytes and for the tag, but not for tag, length and payload
  together, the check passes, the tag is written (and the length varint, when it fits
  as well), and only then the call returns \<open>BUFFER_FULL\<close>.
\<close>

theorem serialize_with_id_available_check:
  assumes "0 < current_length f \<or> optional"
  shows "(get_available_size buffer < unat (current_length f) \<longrightarrow>
            serialize_with_id field_number buffer optional f = (BUFFER_FULL, buffer, f))
       \<and> (unat (current_length f) \<le> get_available_size buffer
          \<and> length (varint_bytes (MakeTag field_number LENGTH_DELIMITED)) \<le> get_available_size buffer
          \<and> get_available_size buffer
               < length (varint_bytes (MakeTag field_number LENGTH_DELIMITED))
                 + length (varint_bytes (current_length f)) + unat (current_length f) \<longrightarrow>
            fst (serialize_with_id field_number buffer optional f) = BUFFER_FULL
          \<and> wb_bytes (fst (snd (serialize_with_id field_number buffer optional f))) =
              wb_bytes buffer @ varint_bytes (MakeTag field_number LENGTH_DELIMITED)
              @ (if length (varint_bytes (MakeTag field_number LENGTH_DELIMITED))
                      + length (varint_bytes (current_length f)) \<le> get_available_size buffer
                 then varint_bytes (current_length f) else []))"
proof (intro conjI impI)
  assume "get_available_size buffer < unat (current_length f)"
  with assms show "serialize_with_id field_number buffer optional f = (BUFFER_FULL, buffer, f)"
    by (simp add: serialize_with_id_def)
next
  let ?t = "varint_bytes (MakeTag field_number LENGTH_DELIMITED)"
  let ?l = "varint_bytes (current_length f)"
  assume a: "unat (current_length f) \<le> get_available_size buffer
      \<and> length ?t \<le> get_available_size buffer
      \<and> get_available_size buffer < length ?t + length ?l + unat (current_length f)"
  have r: "serialize_with_id field_number buffer optional f =
       (BUFFER_FULL,
        buffer\<lparr>wb_bytes := wb_bytes buffer @ ?t
                   @ (if length ?t + length ?l \<le> get_available_size buffer then ?l else [])\<rparr>, f)"
  proof (cases "length ?t + length ?l \<le> get_available_size buffer")
    case True
    with a have "0 < unat (current_length f)" by simp
    then have "0 < current_length f" by (simp add: word_less_nat_alt)
    with True a show ?thesis
      using serialize_with_id_no_payload [of f buffer field_number optional] by simp
  next
    case False
    with a assms show ?thesis
      using serialize_with_id_tag_only [of f optional buffer field_number] by simp
  qed
  show "fst (serialize_with_id field_number buffer optional f) = BUFFER_FULL"
    by (simp add: r)
  show "wb_bytes (fst (snd (serialize_with_id field_number buffer optional f))) =
              wb_bytes buffer @ ?t
              @ (if length ?t + length ?l \<le> get_available_size buffer then ?l else [])"
    by (simp add: r)
qed

theorem serialize_with_id_available_check_witness:
  "0 < current_length \<lparr>current_length = 3, data = [65, 66, 67]\<rparr>
   \<and> serialize_with_id 1 \<lparr>wb_max = 2, wb_bytes = []\<rparr> False \<lparr>current_length = 3, data = [65, 66, 67]\<rparr>
     = (BUFFER_FULL, \<lparr>wb_max = 2, wb_bytes = []\<rparr>, \<lparr>current_length = 3, data = [65, 66, 67]\<rparr>)
   \<and> serialize_with_id 1 \<lparr>wb_max = 3, wb_bytes = []\<rparr> False \<lparr>current_length = 3, data = [65, 66, 67]\<rparr>
     = (BUFFER_FULL, \<lparr>wb_max = 3, wb_bytes = [10, 3]\<rparr>, \<lparr>current_length = 3, data = [65, 66, 67]\<rparr>)"
  using serialize_with_id_available_check
          [of "\<lparr>current_length = 3, data = [65, 66, 67]\<rparr>" False "\<lparr>wb_max = 2, wb_bytes = []\<rparr>" 1]
        serialize_with_id_available_check
          [of "\<lparr>current_length = 3, data = [65, 66, 67]\<rparr>" False "\<lparr>wb_max = 3, wb_bytes = []\<rparr>" 1]
  by code_simp

text \<open>
  Claim C3, as amended. On a field of length 0: without the optional flag
  \<open>serialize_with_id\<close> writes nothing and returns \<open>NO_ERRORS\<close>. With the flag, into a
  transport with room for the tag varint and one byte more, it writes the tag varint
  for \<open>(field_number, LENGTH_DELIMITED)\<close> followed by the byte 0, the varint of 0, and
  no payload, and returns \<open>NO_ERRORS\<close>.
\<close>

theorem serialize_with_id_empty:
  assumes "current_length f = 0"
  shows "serialize_with_id field_number buffer False f = (NO_ERRORS, buffer, f)
       \<and> (length (varint_bytes (MakeTag field_number LENGTH_DELIMITED)) + 1 \<le> get_available_size buffer \<longrightarrow>
            serialize_with_id field_number buffer True f =
              (NO_ERRORS,
               buffer\<lparr>wb_bytes := wb_bytes buffer
                         @ varint_bytes (MakeTag field_number LENGTH_DELIMITED) @ varint_bytes 0\<rparr>,
               f)
          \<and> varint_bytes 0 = [0])"
proof (intro conjI impI)
  show "serialize_with_id field_number buffer False f = (NO_ERRORS, buffer, f)"
    using assms by (simp add: serialize_with_id_def)
next
  assume "length (varint_bytes (MakeTag field_number LENGTH_DELIMITED)) + 1 \<le> get_available_size buffer"
  then show "serialize_with_id field_number buffer True f =
      (NO_ERRORS,
       buffer\<lparr>wb_bytes := wb_bytes buffer @ varint_bytes (MakeTag field_number LENGTH_DELIMITED)
                  @ varint_bytes 0\<rparr>,
       f)"
    using assms serialize_with_id_fits [of f True field_number buffer]
    by (simp add: varint_bytes_0)
next
  show "varint_bytes 0 = [0]" by (rule varint_bytes_0)
qed

theorem serialize_with_id_empty_witness:
  "current_length (FieldStringBytes_default 4) = 0
   \<and> length (varint_bytes (MakeTag 1 LENGTH_DELIMITED)) + 1
       \<le> get_available_size \<lparr>wb_max = 8, wb_bytes = [7]\<rparr>
   \<and> serialize_with_id 1 \<lparr>wb_max = 8, wb_bytes = [7]\<rparr> False (FieldStringBytes_default 4)
       = (NO_ERRORS, \<lparr>wb_max = 8, wb_bytes = [7]\<rparr>, FieldStringBytes_default 4)
   \<and> serialize_with_id 1 \<lparr>wb_max = 8, wb_bytes = [7]\<rparr> True (FieldStringBytes_default 4)
       = (NO_ERRORS, \<lparr>wb_max = 8, wb_bytes = [7, 10, 0]\<rparr>, FieldStringBytes_default 4)"
  using serialize_with_id_empty [of "FieldStringBytes_default 4" 1 "\<lparr>wb_max = 8, wb_bytes = [7]\<rparr>"]
  by code_simp

text \<open>
  The claim as stated has no condition on the transport. On a transport with no room
  left the optional empty field gets \<open>BUFFER_FULL\<close> and neither varint is written.
\<close>

theorem serialize_with_id_empty_counterexample:
  "serialize_with_id 1 \<lparr>wb_max = 0, wb_bytes = []\<rparr> True (FieldStringBytes_default 4)
     = (BUFFER_FULL, \<lparr>wb_max = 0, wb_bytes = []\<rparr>, FieldStringBytes_default 4)
   \<and> wb_bytes (fst (snd (serialize_with_id 1 \<lparr>wb_max = 0, wb_bytes = []\<rparr> True
                             (FieldStringBytes_default 4))))
       \<noteq> varint_bytes (MakeTag 1 LENGTH_DELIMITED) @ varint_bytes 0"
  by code_simp

section \<open>The growing accessor\<close>

text \<open>
  The index arithmetic of \<open>get\<close> read as natural numbers, for an array with an element
  at least: neither \<open>MAX_LENGTH - 1\<close> nor \<open>limited_index + 1\<close> wraps around.
\<close>

lemma unat_min_u32: "unat (min a b :: uint32_t) = min (unat a) (unat b)"
  by (simp add: min_def word_le_nat_alt)

lemma unat_limited_index:
  assumes "MAX_LENGTH \<noteq> (0 :: uint32_t)"
  shows "unat (min index (MAX_LENGTH - 1)) = min (unat index) (unat MAX_LENGTH - 1)"
    and "unat (min index (MAX_LENGTH - 1) + 1) = Suc (min (unat index) (unat MAX_LENGTH - 1))"
proof -
  show l: "unat (min index (MAX_LENGTH - 1)) = min (unat index) (unat MAX_LENGTH - 1)"
    using assms by (simp add: unat_min_u32 unat_minus_one)
  have "MAX_LENGTH - 1 < MAX_LENGTH" using assms by (simp add: word_less_nat_alt unat_minus_one unat_gt_0)
  moreover have "min index (MAX_LENGTH - 1) \<le> MAX_LENGTH - 1" by simp
  ultimately have "min index (MAX_LENGTH - 1) < MAX_LENGTH" by (rule le_less_trans [rotated])
  then show "unat (min index (MAX_LENGTH - 1) + 1) = Suc (min (unat index) (unat MAX_LENGTH - 1))"
    using unat_inc [of "min index (MAX_LENGTH - 1)" MAX_LENGTH] l by simp
qed

lemma get_length_nat:
  assumes "MAX_LENGTH \<noteq> 0"
  shows "unat (current_length (snd (get MAX_LENGTH index f))) =
     (if unat (current_length f) \<le> min (unat index) (unat MAX_LENGTH - 1)
      then min (unat index) (unat MAX_LENGTH - 1) + 1
      else unat (current_length f))"
  using unat_limited_index [OF assms, of index]
  by (simp add: get_def Let_def word_le_nat_alt)

lemma get_upto_clear_length:
  assumes "MAX_LENGTH \<noteq> 0" and "n \<le> unat MAX_LENGTH"
  shows "unat (current_length (get_upto MAX_LENGTH n (clear f))) = n"
  using assms(2)
proof (induction n)
  case 0
  then show ?case by (simp add: clear_def)
next
  case (Suc n)
  have "unat MAX_LENGTH < 2 ^ 32" using unsigned_less [of MAX_LENGTH] by simp
  with Suc.prems have "unat (of_nat n :: uint32_t) = n"
    by (simp add: unat_of_nat_u32)
  with Suc show ?case
    using get_length_nat [OF assms(1), of "of_nat n" "get_upto MAX_LENGTH n (clear f)"]
    by simp
qed

text \<open>
  Claim C8. On a field with a capacity of one element or more, \<open>get(index)\<close> returns a
  reference to position \<open>min index (capacity - 1)\<close>; when this position is at or beyond
  the current length the length becomes the position plus one, otherwise it stays; the
  storage is not touched. In particular, on a cleared field, the calls \<open>get(0)\<close>,
  \<open>get(1)\<close>, ..., \<open>get(n)\<close> in this order leave the length \<open>n + 1\<close>, \<open>n\<close> ranging over the
  indices of the field: those below the capacity, which the clamp leaves as they are.
\<close>

theorem get_grows:
  assumes "MAX_LENGTH \<noteq> 0"
  shows "unat (fst (get MAX_LENGTH index f)) = min (unat index) (unat MAX_LENGTH - 1)
       \<and> unat (get_length (snd (get MAX_LENGTH index f))) =
           (if unat (get_length f) \<le> min (unat index) (unat MAX_LENGTH - 1)
            then min (unat index) (unat MAX_LENGTH - 1) + 1
            else unat (get_length f))
       \<and> data (snd (get MAX_LENGTH index f)) = data f
       \<and> (n < unat MAX_LENGTH \<longrightarrow>
            unat (get_length (get_upto MAX_LENGTH (Suc n) (clear f))) = n + 1)"
proof (intro conjI impI)
  show "unat (fst (get MAX_LENGTH index f)) = min (unat index) (unat MAX_LENGTH - 1)"
    using unat_limited_index(1) [OF assms] by (simp add: get_def Let_def)
  show "unat (get_length (snd (get MAX_LENGTH index f))) =
           (if unat (get_length f) \<le> min (unat index) (unat MAX_LENGTH - 1)
            then min (unat index) (unat MAX_LENGTH - 1) + 1
            else unat (get_length f))"
    using get_length_nat [OF assms] by (simp add: get_length_def)
  show "data (snd (get MAX_LENGTH index f)) = data f"
    by (simp add: get_def Let_def)
next
  assume "n < unat MAX_LENGTH"
  then have "Suc n \<le> unat MAX_LENGTH" by simp
  then show "unat (get_length (get_upto MAX_LENGTH (Suc n) (clear f))) = n + 1"
    using get_upto_clear_length [OF assms, of "Suc n" f] by (simp add: get_length_def)
qed

theorem get_grows_witness:
  "(3 :: uint32_t) \<noteq> 0
   \<and> get 3 7 \<lparr>current_length = 1, data = [65, 0, 0]\<rparr> = (2, \<lparr>current_length = 3, data = [65, 0, 0]\<rparr>)
   \<and> get_length (get_upto 3 (Suc 2) (clear \<lparr>current_length = 1, data = [65, 0, 0]\<rparr>)) = 3"
  using get_grows [of 3 7 "\<lparr>current_length = 1, data = [65, 0, 0]\<rparr>" 2]
  by code_simp

section \<open>Assigning a C string\<close>

text \<open>The first \<open>n\<close> characters of a string of \<open>n\<close> characters or more: none is the terminator.\<close>

lemma take_strlen:
  assumes "n \<le> strlen str"
  shows "0 \<notin> set (take n str)" and "length (take n str) = n"
proof -
  let ?p = "takeWhile (\<lambda>c. c \<noteq> 0) str"
  have "?p = take (strlen str) str"
    unfolding strlen_def by (rule takeWhile_eq_take)
  then have "take n ?p = take n str"
    using assms by (simp add: min_def)
  moreover have "\<forall>c \<in> set ?p. c \<noteq> 0"
    by (auto dest: set_takeWhileD)
  then have "0 \<notin> set (take n ?p)"
    by (auto dest: in_set_takeD)
  ultimately show "0 \<notin> set (take n str)" by simp
  have "strlen str \<le> length str"
    by (simp add: strlen_def length_takeWhile_le)
  with assms show "length (take n str) = n" by simp
qed

lemma set_str_length:
  assumes "strlen str < 2 ^ 32"
  shows "unat (current_length (set_str MAX_LENGTH (Some str) f)) = min (strlen str) (unat MAX_LENGTH)"
  using assms
  by (simp add: set_str_def set_length_def get_length_def Let_def unat_min_u32 unat_of_nat_u32)

lemma set_str_data:
  assumes "array_of MAX_LENGTH f" and "strlen str < 2 ^ 32"
  shows "data (set_str MAX_LENGTH (Some str) f) =
     (let n = min (strlen str) (unat MAX_LENGTH) in
      take n str @ (if n < unat MAX_LENGTH then 0 # drop (Suc n) (data f) else []))"
proof -
  let ?n = "min (strlen str) (unat MAX_LENGTH)"
  let ?c = "min (of_nat (strlen str)) MAX_LENGTH :: uint32_t"
  have c: "unat ?c = ?n"
    using assms(2) by (simp add: unat_min_u32 unat_of_nat_u32)
  show ?thesis
  proof (cases "?n < unat MAX_LENGTH")
    case True
    then have lt: "?c < MAX_LENGTH" using c by (simp add: word_less_nat_alt)
    then have "unat (?c + 1) = Suc ?n" using unat_inc [OF lt] c by simp
    moreover have "?n = strlen str" using True by simp
    ultimately show ?thesis
      using True lt
      by (simp add: set_str_def set_length_def get_length_def Let_def strncpy_def)
  next
    case False
    then have nlt: "\<not> ?c < MAX_LENGTH" using c by (simp add: word_less_nat_alt)
    have "?n = unat MAX_LENGTH" using False by simp
    then show ?thesis
      using False nlt c assms(1)
      by (simp add: set_str_def set_length_def get_length_def Let_def strncpy_def array_of_def)
  qed
qed

text \<open>
  Strings shorter than \<open>2 ^ 32\<close> characters. Assigning the null pointer clears the
  field. Assigning a string of \<open>S\<close> characters sets the length to \<open>min S capacity\<close>,
  copies that many characters, none of them zero, and writes one zero byte after them
  if and only if \<open>min S capacity < capacity\<close>; what follows the terminator is left as it
  was. With \<open>S \<ge> capacity\<close> the storage is the first \<open>capacity\<close> characters and holds no
  terminator.
\<close>

lemma set_str_spec:
  assumes "array_of MAX_LENGTH f" and "strlen str < 2 ^ 32"
  shows "set_str MAX_LENGTH None f = clear f
       \<and> unat (get_length (set_str MAX_LENGTH (Some str) f)) = min (strlen str) (unat MAX_LENGTH)
       \<and> data (set_str MAX_LENGTH (Some str) f) =
           take (min (strlen str) (unat MAX_LENGTH)) str
           @ (if min (strlen str) (unat MAX_LENGTH) < unat MAX_LENGTH
              then 0 # drop (Suc (min (strlen str) (unat MAX_LENGTH))) (data f)
              else [])
       \<and> length (take (min (strlen str) (unat MAX_LENGTH)) str) = min (strlen str) (unat MAX_LENGTH)
       \<and> 0 \<notin> set (take (min (strlen str) (unat MAX_LENGTH)) str)"
  using set_str_length [OF assms(2)] set_str_data [OF assms]
        take_strlen [of "min (strlen str) (unat MAX_LENGTH)" str]
  by (simp add: set_str_def get_length_def Let_def)

lemma set_str_spec_example:
  "array_of 4 \<lparr>current_length = 4, data = [1, 2, 3, 4]\<rparr>
   \<and> array_of 3 \<lparr>current_length = 1, data = [1, 2, 3]\<rparr>
   \<and> strlen [97, 98, 99] < 2 ^ 32
   \<and> unat (get_length (set_str 4 (Some [97, 98, 99]) \<lparr>current_length = 4, data = [1, 2, 3, 4]\<rparr>)) = 3
   \<and> data (set_str 4 (Some [97, 98, 99]) \<lparr>current_length = 4, data = [1, 2, 3, 4]\<rparr>)
       = [97, 98, 99, 0]
   \<and> unat (get_length (set_str 3 (Some [97, 98, 99]) \<lparr>current_length = 1, data = [1, 2, 3]\<rparr>)) = 3
   \<and> data (set_str 3 (Some [97, 98, 99]) \<lparr>current_length = 1, data = [1, 2, 3]\<rparr>)
       = [97, 98, 99]"
proof -
  have h1: "array_of 4 \<lparr>current_length = 4, data = [1, 2, 3, 4]\<rparr>"
    and h1': "array_of 3 \<lparr>current_length = 1, data = [1, 2, 3]\<rparr>"
    by (simp_all add: array_of_def)
  have h2: "strlen [97, 98, 99] < 2 ^ 32"
    by (simp add: strlen_def)
  have m: "min (strlen [97, 98, 99]) (unat (4 :: uint32_t)) = 3"
    and m': "min (strlen [97, 98, 99]) (unat (3 :: uint32_t)) = 3"
    by (simp_all add: strlen_def)
  show ?thesis
    using set_str_spec [OF h1 h2] set_str_spec [OF h1' h2] h1 h1' h2 m m' by simp
qed

text \<open>
  Claim C9. The claim is about every C string: the length becomes \<open>min S capacity\<close>, and
  a terminator is written exactly when there is room for it. The code keeps the result
  of \<^verbatim>\<open>strlen\<close> in a \<^verbatim>\<open>uint32_t\<close> before \<^verbatim>\<open>set_length\<close> clamps it. For a string of
  \<open>2 ^ 32\<close> characters the stored length is 0: a field of capacity 4 ends with length 0
  and not 4, \<^verbatim>\<open>this_length\<close> is 1, and the one byte \<^verbatim>\<open>strncpy\<close> copies is the first
  character of the string where the comment of line 341 expects the terminator.
\<close>

theorem set_str_narrowing:
  "strlen (replicate 4294967296 97) = 4294967296
   \<and> set_str 4 (Some (replicate 4294967296 97)) (FieldStringBytes_default 4)
       = \<lparr>current_length = 0, data = [97, 0, 0, 0]\<rparr>"
proof -
  have s: "strlen (replicate 4294967296 97) = 4294967296"
    by (simp add: strlen_def takeWhile_replicate)
  have "(of_nat (4294967296 :: nat) :: uint32_t) = 0" by simp
  moreover have "replicate (unat (4 :: uint32_t)) (0 :: uint8_t) = [0, 0, 0, 0]"
    by code_simp
  ultimately show ?thesis
    using s
    by (simp add: set_str_def set_length_def get_length_def Let_def strncpy_def
                  FieldStringBytes_default_def)
qed

section \<open>The invariant\<close>

text \<open>Each operation keeps the invariant, where C++ defines the call.\<close>

lemma invariant_default: "invariant MAX_LENGTH (FieldStringBytes_default MAX_LENGTH)"
  by (simp add: invariant_def array_of_def FieldStringBytes_default_def)

lemma invariant_clear: "invariant MAX_LENGTH f \<Longrightarrow> invariant MAX_LENGTH (clear f)"
  by (simp add: invariant_def array_of_def clear_def)

lemma invariant_get:
  assumes "MAX_LENGTH \<noteq> 0" and "invariant MAX_LENGTH f"
  shows "invariant MAX_LENGTH (snd (get MAX_LENGTH index f))"
proof -
  define l where "l = min (unat index) (unat MAX_LENGTH - 1)"
  have "0 < unat MAX_LENGTH"
    using assms(1) by (simp add: unat_gt_0)
  moreover have "l \<le> unat MAX_LENGTH - 1"
    by (simp add: l_def)
  ultimately have l: "l + 1 \<le> unat MAX_LENGTH" by arith
  have c: "unat (current_length f) \<le> unat MAX_LENGTH"
    using assms(2) by (simp add: invariant_def word_le_nat_alt)
  have "unat (current_length (snd (get MAX_LENGTH index f))) =
          (if unat (current_length f) \<le> l then l + 1 else unat (current_length f))"
    unfolding l_def by (rule get_length_nat [OF assms(1)])
  with l c have "unat (current_length (snd (get MAX_LENGTH index f))) \<le> unat MAX_LENGTH"
    by (cases "unat (current_length f) \<le> l") simp_all
  moreover have "data (snd (get MAX_LENGTH index f)) = data f"
    by (simp add: get_def Let_def)
  ultimately show ?thesis
    using assms(2) by (simp add: invariant_def array_of_def word_le_nat_alt)
qed

lemma invariant_assign: "invariant MAX_LENGTH f \<Longrightarrow> invariant MAX_LENGTH (assign ref v f)"
  by (simp add: invariant_def array_of_def assign_def)

lemma invariant_set_data:
  assumes "invariant MAX_LENGTH f" and "unat len \<le> length src"
  shows "invariant MAX_LENGTH (snd (set_data MAX_LENGTH src len f))"
  using assms
  by (auto simp add: invariant_def array_of_def set_data_def memcpy_def word_le_nat_alt)

lemma invariant_deserialize:
  assumes "invariant MAX_LENGTH f"
  shows "invariant MAX_LENGTH (fst (snd (deserialize MAX_LENGTH buffer f)))"
proof (cases "DeserializeVarint buffer")
  case (fields return_value availiable buffer1)
  show ?thesis
  proof (cases "return_value = NO_ERRORS \<and> availiable \<le> MAX_LENGTH")
    case False
    with fields assms show ?thesis by (auto simp add: deserialize_def)
  next
    case True
    let ?m = "min (unat availiable) (length buffer1)"
    have a: "array_of MAX_LENGTH f" using assms by (simp add: invariant_def)
    have le: "unat availiable \<le> unat MAX_LENGTH" using True by (simp add: word_le_nat_alt)
    have "unat MAX_LENGTH < 2 ^ 32" using unsigned_less [of MAX_LENGTH] by simp
    with le have "unat (of_nat ?m :: uint32_t) = ?m" by (simp add: unat_of_nat_u32)
    with le have "(of_nat ?m :: uint32_t) \<le> MAX_LENGTH" by (simp add: word_le_nat_alt)
    moreover have "length (take ?m buffer1 @ replicate (unat MAX_LENGTH - ?m) 0) = unat MAX_LENGTH"
      using le by simp
    ultimately show ?thesis
      using fields True read_loop_clear [OF a, of availiable buffer1]
      by (simp add: deserialize_def Let_def invariant_def array_of_def)
  qed
qed

lemma strlen_le: "strlen str \<le> length str"
  by (simp add: strlen_def length_takeWhile_le)

lemma length_strncpy:
  assumes "n \<le> length dest"
  shows "length (strncpy dest str n) = length dest"
proof -
  have "min n (strlen str) \<le> length str"
    using strlen_le [of str] by simp
  with assms show ?thesis
    by (simp add: strncpy_def Let_def)
qed

lemma invariant_set_str:
  assumes "invariant MAX_LENGTH f"
  shows "invariant MAX_LENGTH (set_str MAX_LENGTH str_ptr f)"
proof (cases str_ptr)
  case None
  with assms show ?thesis by (simp add: set_str_def invariant_clear)
next
  case (Some str)
  define c :: uint32_t where "c = min (of_nat (strlen str)) MAX_LENGTH"
  define t where "t = (if c < MAX_LENGTH then c + 1 else c)"
  have c: "c \<le> MAX_LENGTH" by (simp add: c_def)
  have "unat t \<le> unat MAX_LENGTH"
  proof (cases "c < MAX_LENGTH")
    case True
    then show ?thesis
      using unat_inc [OF True] by (simp add: t_def word_less_nat_alt)
  next
    case False
    with c show ?thesis by (simp add: t_def word_le_nat_alt)
  qed
  then have "length (strncpy (data f) str (unat t)) = length (data f)"
    using assms by (simp add: length_strncpy invariant_def array_of_def)
  moreover have "set_str MAX_LENGTH str_ptr f =
      f\<lparr>current_length := c, data := strncpy (data f) str (unat t)\<rparr>"
    using Some by (simp add: set_str_def set_length_def get_length_def Let_def c_def t_def)
  ultimately show ?thesis
    using assms c by (simp add: invariant_def array_of_def)
qed

lemma invariant_call:
  assumes "invariant MAX_LENGTH f" and "defined_call MAX_LENGTH c"
  shows "invariant MAX_LENGTH (call MAX_LENGTH c f)"
proof (cases c)
  case (Get index v)
  with assms show ?thesis
    by (cases v) (simp_all add: invariant_get invariant_assign split: prod.splits,
                  metis invariant_get invariant_assign snd_conv)
next
  case (SetData src len)
  with assms show ?thesis by (simp add: invariant_set_data)
next
  case (SetField rhs)
  with assms show ?thesis by (simp add: set_field_def invariant_set_data)
next
  case (Serialize buffer)
  then show ?thesis
    using assms(1) by (simp add: serialize_def split: prod.splits bool.splits)
next
  case (SerializeWithId field_number buffer optional)
  then show ?thesis
    using assms(1)
    by (simp add: serialize_with_id_def serialize_def Let_def split: prod.splits bool.splits)
next
  case (Deserialize buffer)
  with assms show ?thesis by (simp add: invariant_deserialize)
next
  case (DeserializeCheckType buffer wire_type)
  with assms show ?thesis
    by (simp add: deserialize_check_type_def invariant_deserialize)
next
  case Clear
  with assms show ?thesis by (simp add: invariant_clear)
next
  case (SetStr str_ptr)
  with assms show ?thesis by (simp add: invariant_set_str)
qed (use assms in simp_all)

lemma invariant_run:
  assumes "invariant MAX_LENGTH f" and "\<forall>c \<in> set cs. defined_call MAX_LENGTH c"
  shows "invariant MAX_LENGTH (run MAX_LENGTH cs f)"
  using assms
  by (induction cs arbitrary: f) (simp_all add: invariant_call)

text \<open>
  Claim C2. A default-constructed field satisfies the invariant. From any field that
  satisfies it, after each call of any sequence of public operations (\<open>get\<close> with or
  without a store through the reference, the \<open>get_const\<close> accessors, \<open>set\<close> from a
  pointer and from another field, \<open>serialize\<close>, \<open>serialize_with_id\<close>, \<open>deserialize\<close>,
  \<open>deserialize_check_type\<close>, \<open>clear\<close> and the C string assignment), the length is at
  most the capacity and the storage has the size it had. The calls are those C++
  defines: \<open>set\<close> is given a pointer to \<open>length\<close> readable bytes, and the indexed
  accessors are called on an array that has an element. \<open>take n cs\<close> is the first \<open>n\<close>
  calls, so the statement holds after every one of them.
\<close>

theorem invariant_preserved:
  assumes "invariant MAX_LENGTH f" and "\<forall>c \<in> set cs. defined_call MAX_LENGTH c"
  shows "invariant MAX_LENGTH (FieldStringBytes_default MAX_LENGTH)
       \<and> current_length (run MAX_LENGTH (take n cs) f) \<le> MAX_LENGTH
       \<and> length (data (run MAX_LENGTH (take n cs) f)) = unat MAX_LENGTH
       \<and> length (data (run MAX_LENGTH (take n cs) f)) = length (data f)"
proof -
  have "\<forall>c \<in> set (take n cs). defined_call MAX_LENGTH c"
    using assms(2) by (auto dest: in_set_takeD)
  then have "invariant MAX_LENGTH (run MAX_LENGTH (take n cs) f)"
    using assms(1) by (rule invariant_run [rotated])
  then show ?thesis
    using assms(1) invariant_default [of MAX_LENGTH]
    by (simp add: invariant_def array_of_def)
qed

theorem invariant_preserved_witness:
  "invariant 3 (FieldStringBytes_default 3)
   \<and> list_all (defined_call 3)
        [Get 1 (Some 65), SetData [1, 2, 3, 4] 4, SetData [1, 2] 2, Deserialize [3, 7, 8],
         SetStr (Some [97, 98, 99, 100]), SerializeWithId 1 \<lparr>wb_max = 9, wb_bytes = []\<rparr> True,
         Get 7 None, Deserialize [9, 1], Clear]
   \<and> run 3 (take 5
        [Get 1 (Some 65), SetData [1, 2, 3, 4] 4, SetData [1, 2] 2, Deserialize [3, 7, 8],
         SetStr (Some [97, 98, 99, 100]), SerializeWithId 1 \<lparr>wb_max = 9, wb_bytes = []\<rparr> True,
         Get 7 None, Deserialize [9, 1], Clear]) (FieldStringBytes_default 3)
       = \<lparr>current_length = 3, data = [97, 98, 99]\<rparr>
   \<and> current_length (run 3 (take 5
        [Get 1 (Some 65), SetData [1, 2, 3, 4] 4, SetData [1, 2] 2, Deserialize [3, 7, 8],
         SetStr (Some [97, 98, 99, 100]), SerializeWithId 1 \<lparr>wb_max = 9, wb_bytes = []\<rparr> True,
         Get 7 None, Deserialize [9, 1], Clear]) (FieldStringBytes_default 3)) \<le> 3"
proof -
  let ?cs = "[Get 1 (Some 65), SetData [1, 2, 3, 4] 4, SetData [1, 2] 2, Deserialize [3, 7, 8],
         SetStr (Some [97, 98, 99, 100]), SerializeWithId 1 \<lparr>wb_max = 9, wb_bytes = []\<rparr> True,
         Get 7 None, Deserialize [9, 1], Clear]"
  have h1: "invariant 3 (FieldStringBytes_default 3)"
    by (simp add: invariant_def array_of_def FieldStringBytes_default_def)
  have h2: "list_all (defined_call 3) ?cs"
    by simp
  then have h2': "\<forall>c \<in> set ?cs. defined_call 3 c"
    by (simp only: list_all_iff)
  have r: "run 3 (take 5 ?cs) (FieldStringBytes_default 3) = \<lparr>current_length = 3, data = [97, 98, 99]\<rparr>"
    by code_simp
  show ?thesis
    using invariant_preserved [OF h1 h2', of 5] h1 h2 r by simp
qed

section \<open>Round trip\<close>

text \<open>A stream that holds the length varint and all the bytes it declares is read back whole.\<close>

lemma deserialize_complete:
  assumes "array_of MAX_LENGTH f" and "N \<le> MAX_LENGTH" and "length payload = unat N"
  shows "deserialize MAX_LENGTH (varint_bytes N @ payload @ rest) f =
     (NO_ERRORS,
      \<lparr>current_length = N, data = payload @ replicate (unat MAX_LENGTH - unat N) 0\<rparr>,
      rest)"
proof -
  have "min (unat N) (length (payload @ rest)) = unat N"
    using assms(3) by simp
  then show ?thesis
    using assms(2,3) read_loop_clear [OF assms(1,2), of "payload @ rest"]
    by (simp add: deserialize_def DeserializeVarint_varint_bytes Let_def)
qed

text \<open>A fresh field reads nothing from an empty stream and stays as it is.\<close>

lemma deserialize_check_type_Nil:
  "deserialize_check_type MAX_LENGTH [] LENGTH_DELIMITED f = (END_OF_BUFFER, f, [])"
  by (simp add: deserialize_check_type_def deserialize_def)

text \<open>
  Claim C1, as amended. Take any field of capacity \<open>C\<close>, a length \<open>L \<le> C\<close> and a payload
  of \<open>L\<close> bytes. After \<open>set(payload, L)\<close>, \<open>serialize_with_id\<close> into an empty transport
  with room for what it writes returns \<open>NO_ERRORS\<close>. With \<open>L > 0\<close> or the optional flag
  it writes the tag varint for \<open>(field_number, LENGTH_DELIMITED)\<close>, the length varint
  and the payload; the stream handed to \<open>deserialize_check_type\<close> is what is left once
  the tag has been read off, as the caller that passes the wire type does, and the
  call returns \<open>NO_ERRORS\<close> and uses the stream up. With \<open>L = 0\<close> and no flag it writes
  nothing, and the stream is empty. Either way \<open>deserialize_check_type\<close> with
  \<open>LENGTH_DELIMITED\<close> on a fresh field of capacity \<open>C\<close> leaves the length \<open>L\<close> and the
  payload as the first \<open>L\<close> bytes, zeros after them.
\<close>

theorem round_trip:
  assumes "array_of MAX_LENGTH f0"
    and "L \<le> MAX_LENGTH"
    and "length payload = unat L"
    and "wb_bytes buffer = []"
    and "0 < L \<or> optional \<Longrightarrow>
           length (varint_bytes (MakeTag field_number LENGTH_DELIMITED))
             + length (varint_bytes L) + unat L \<le> wb_max buffer"
  shows "(let f = snd (set_data MAX_LENGTH payload L f0);
              written = serialize_with_id field_number buffer optional f;
              bytes = wb_bytes (fst (snd written));
              tag = DeserializeVarint bytes;
              stream = (if 0 < L \<or> optional then snd (snd tag) else bytes);
              back = deserialize_check_type MAX_LENGTH stream LENGTH_DELIMITED
                       (FieldStringBytes_default MAX_LENGTH)
          in fst written = NO_ERRORS
           \<and> (if 0 < L \<or> optional
               then fst tag = NO_ERRORS
                  \<and> fst (snd tag) = MakeTag field_number LENGTH_DELIMITED
                  \<and> fst back = NO_ERRORS
                  \<and> snd (snd back) = []
               else bytes = [])
           \<and> get_length (fst (snd back)) = L
           \<and> take (unat L) (data (fst (snd back))) = payload
           \<and> data (fst (snd back)) = payload @ replicate (unat MAX_LENGTH - unat L) 0)"
proof (cases "0 < L \<or> optional")
  case True
  let ?f = "snd (set_data MAX_LENGTH payload L f0)"
  let ?t = "varint_bytes (MakeTag field_number LENGTH_DELIMITED)"
  have f: "current_length ?f = L" "take (unat L) (data ?f) = payload"
    using assms(2,3) by (simp_all add: set_data_def memcpy_def)
  have room: "get_available_size buffer = wb_max buffer"
    using assms(4) by (simp add: get_available_size_def)
  have w: "serialize_with_id field_number buffer optional ?f =
      (NO_ERRORS, buffer\<lparr>wb_bytes := ?t @ varint_bytes L @ payload\<rparr>, ?f)"
    using serialize_with_id_fits [of ?f optional field_number buffer] assms(4) assms(5) [OF True]
          True f room
    by simp
  have t: "DeserializeVarint (?t @ varint_bytes L @ payload) =
      (NO_ERRORS, MakeTag field_number LENGTH_DELIMITED, varint_bytes L @ payload)"
    by (rule DeserializeVarint_varint_bytes)
  have d: "array_of MAX_LENGTH (FieldStringBytes_default MAX_LENGTH)"
    by (simp add: array_of_def FieldStringBytes_default_def)
  have b: "deserialize_check_type MAX_LENGTH (varint_bytes L @ payload) LENGTH_DELIMITED
             (FieldStringBytes_default MAX_LENGTH) =
      (NO_ERRORS, \<lparr>current_length = L, data = payload @ replicate (unat MAX_LENGTH - unat L) 0\<rparr>, [])"
    using deserialize_complete [OF d assms(2,3), of "[]"]
    by (simp add: deserialize_check_type_def)
  show ?thesis
    using assms(3) True by (simp add: Let_def w t b get_length_def)
next
  case False
  then have z: "L = 0" and o: "\<not> optional" by (simp_all add: word_gt_0)
  have p: "payload = []" using assms(3) z by simp
  have w: "serialize_with_id field_number buffer False (snd (set_data MAX_LENGTH [] 0 f0)) =
      (NO_ERRORS, buffer, snd (set_data MAX_LENGTH [] 0 f0))"
    by (simp add: serialize_with_id_def set_data_def)
  show ?thesis
    using False z o p assms(4)
    by (simp add: Let_def w deserialize_check_type_Nil get_length_def FieldStringBytes_default_def)
qed

theorem round_trip_witness:
  "array_of 3 \<lparr>current_length = 3, data = [1, 2, 3]\<rparr>
   \<and> (2 :: uint32_t) \<le> 3
   \<and> length [65, 66 :: uint8_t] = unat (2 :: uint32_t)
   \<and> length (varint_bytes (MakeTag 1 LENGTH_DELIMITED)) + length (varint_bytes 2) + unat (2 :: uint32_t)
       \<le> wb_max \<lparr>wb_max = 4, wb_bytes = []\<rparr>
   \<and> serialize_with_id 1 \<lparr>wb_max = 4, wb_bytes = []\<rparr> False
         (snd (set_data 3 [65, 66] 2 \<lparr>current_length = 3, data = [1, 2, 3]\<rparr>))
       = (NO_ERRORS, \<lparr>wb_max = 4, wb_bytes = [10, 2, 65, 66]\<rparr>, \<lparr>current_length = 2, data = [65, 66, 3]\<rparr>)
   \<and> DeserializeVarint [10, 2, 65, 66] = (NO_ERRORS, MakeTag 1 LENGTH_DELIMITED, [2, 65, 66])
   \<and> deserialize_check_type 3 [2, 65, 66] LENGTH_DELIMITED (FieldStringBytes_default 3)
       = (NO_ERRORS, \<lparr>current_length = 2, data = [65, 66, 0]\<rparr>, [])
   \<and> (0 :: uint32_t) \<le> 3
   \<and> length ([] :: uint8_t list) = unat (0 :: uint32_t)
   \<and> serialize_with_id 1 \<lparr>wb_max = 0, wb_bytes = []\<rparr> False
         (snd (set_data 3 [] 0 \<lparr>current_length = 3, data = [1, 2, 3]\<rparr>))
       = (NO_ERRORS, \<lparr>wb_max = 0, wb_bytes = []\<rparr>, \<lparr>current_length = 0, data = [1, 2, 3]\<rparr>)
   \<and> deserialize_check_type 3 [] LENGTH_DELIMITED (FieldStringBytes_default 3)
       = (END_OF_BUFFER, \<lparr>current_length = 0, data = [0, 0, 0]\<rparr>, [])"
proof -
  have h: "array_of 3 \<lparr>current_length = 3, data = [1, 2, 3]\<rparr>" "(2 :: uint32_t) \<le> 3"
      "length [65, 66 :: uint8_t] = unat (2 :: uint32_t)"
      "wb_bytes \<lparr>wb_max = 4, wb_bytes = []\<rparr> = []"
    by (simp_all add: array_of_def)
  have r: "length (varint_bytes (MakeTag 1 LENGTH_DELIMITED)) + length (varint_bytes 2) + unat (2 :: uint32_t)
      \<le> wb_max \<lparr>wb_max = 4, wb_bytes = []\<rparr>"
    by code_simp
  have h0: "(0 :: uint32_t) \<le> 3" "length ([] :: uint8_t list) = unat (0 :: uint32_t)"
      "wb_bytes \<lparr>wb_max = 0, wb_bytes = []\<rparr> = []"
    by simp_all
  have r0: "0 < (0 :: uint32_t) \<or> False \<Longrightarrow>
      length (varint_bytes (MakeTag 1 LENGTH_DELIMITED)) + length (varint_bytes 0) + unat (0 :: uint32_t)
      \<le> wb_max \<lparr>wb_max = 0, wb_bytes = []\<rparr>"
    by simp
  have e: "serialize_with_id 1 \<lparr>wb_max = 4, wb_bytes = []\<rparr> False
         (snd (set_data 3 [65, 66] 2 \<lparr>current_length = 3, data = [1, 2, 3]\<rparr>))
       = (NO_ERRORS, \<lparr>wb_max = 4, wb_bytes = [10, 2, 65, 66]\<rparr>, \<lparr>current_length = 2, data = [65, 66, 3]\<rparr>)"
     "DeserializeVarint [10, 2, 65, 66] = (NO_ERRORS, MakeTag 1 LENGTH_DELIMITED, [2, 65, 66])"
     "deserialize_check_type 3 [2, 65, 66] LENGTH_DELIMITED (FieldStringBytes_default 3)
       = (NO_ERRORS, \<lparr>current_length = 2, data = [65, 66, 0]\<rparr>, [])"
     "serialize_with_id 1 \<lparr>wb_max = 0, wb_bytes = []\<rparr> False
         (snd (set_data 3 [] 0 \<lparr>current_length = 3, data = [1, 2, 3]\<rparr>))
       = (NO_ERRORS, \<lparr>wb_max = 0, wb_bytes = []\<rparr>, \<lparr>current_length = 0, data = [1, 2, 3]\<rparr>)"
     "deserialize_check_type 3 [] LENGTH_DELIMITED (FieldStringBytes_default 3)
       = (END_OF_BUFFER, \<lparr>current_length = 0, data = [0, 0, 0]\<rparr>, [])"
    by code_simp+
  show ?thesis
    using round_trip [OF h, of False 1, OF r] round_trip [OF h(1) h0, of False 1, OF r0]
          h(1-3) r h0(1,2) e
    by simp
qed

text \<open>
  The claim as stated hands all the bytes written to \<open>deserialize_check_type\<close>. The
  first of them is the tag, which \<open>deserialize\<close> takes for the length: for field number
  1 the tag is 10, above a capacity of 3, so the call returns \<open>ARRAY_FULL\<close> and the
  fresh field keeps the length 0 where the payload had one byte. Nor does the claim
  ask for room in the transport: with room for one byte and a payload of two, the check
  of line 182 returns \<open>BUFFER_FULL\<close>, nothing is written, and the fresh field keeps the
  length 0.
\<close>

theorem round_trip_counterexample:
  "serialize_with_id 1 \<lparr>wb_max = 16, wb_bytes = []\<rparr> False
       (snd (set_data 3 [65] 1 (FieldStringBytes_default 3)))
     = (NO_ERRORS, \<lparr>wb_max = 16, wb_bytes = [10, 1, 65]\<rparr>, \<lparr>current_length = 1, data = [65, 0, 0]\<rparr>)
   \<and> deserialize_check_type 3 [10, 1, 65] LENGTH_DELIMITED (FieldStringBytes_default 3)
     = (ARRAY_FULL, FieldStringBytes_default 3, [1, 65])
   \<and> get_length (FieldStringBytes_default 3) \<noteq> 1
   \<and> serialize_with_id 1 \<lparr>wb_max = 1, wb_bytes = []\<rparr> False
       (snd (set_data 3 [65, 66] 2 (FieldStringBytes_default 3)))
     = (BUFFER_FULL, \<lparr>wb_max = 1, wb_bytes = []\<rparr>, \<lparr>current_length = 2, data = [65, 66, 0]\<rparr>)
   \<and> deserialize_check_type 3 [] LENGTH_DELIMITED (FieldStringBytes_default 3)
     = (END_OF_BUFFER, FieldStringBytes_default 3, [])
   \<and> get_length (FieldStringBytes_default 3) \<noteq> 2"
  by code_simp

end
